theory Spec2Isabelle
  imports Main "HOL-Library.AList" "HOL-Library.Word"
begin

section \<open>Python strings\<close>

text \<open>
  A Python \<^verbatim>\<open>str\<close> is modelled as a \<^typ>\<open>string\<close>; every \<^typ>\<open>char\<close> stands for
  one code point below 256. \<^verbatim>\<open>str.isspace\<close>, \<^verbatim>\<open>str.lower\<close> and the regular
  expression class \<^verbatim>\<open>\s\<close> are written out for that range.
\<close>

definition is_space :: "char \<Rightarrow> bool" where
  "is_space c =
     (let n = (of_char c :: nat)
      in (9 \<le> n \<and> n \<le> 13) \<or> (28 \<le> n \<and> n \<le> 32) \<or> n = 133 \<or> n = 160)"

definition lower_char :: "char \<Rightarrow> char" where
  "lower_char c =
     (let n = (of_char c :: nat)
      in if (65 \<le> n \<and> n \<le> 90) \<or> (192 \<le> n \<and> n \<le> 222 \<and> n \<noteq> 215)
         then char_of (n + 32) else c)"

definition lower :: "string \<Rightarrow> string" where
  "lower s = map lower_char s"

definition strip :: "string \<Rightarrow> string" where
  "strip s = rev (dropWhile is_space (rev (dropWhile is_space s)))"

definition startswith :: "string \<Rightarrow> string \<Rightarrow> bool" where
  "startswith s p = (take (length p) s = p)"

definition endswith :: "string \<Rightarrow> string \<Rightarrow> bool" where
  "endswith s p = (length p \<le> length s \<and> drop (length s - length p) s = p)"

text \<open>\<^verbatim>\<open>sub in s\<close>: \<open>sub\<close> occurs in \<open>s\<close> as a contiguous substring.\<close>

fun contains :: "string \<Rightarrow> string \<Rightarrow> bool" where
  "contains sub [] = (sub = [])"
| "contains sub (x # xs) = (startswith (x # xs) sub \<or> contains sub xs)"

section \<open>db_utils.normalize_sslmode\<close>

text \<open>
  The argument is \<^verbatim>\<open>None\<close> or a value whose \<^verbatim>\<open>str()\<close> rendering is the given
  string. The dictionary literal \<^verbatim>\<open>mapping\<close> keeps its twelve entries in source order.
\<close>

definition sslmode_mapping :: "(string \<times> string) list" where
  "sslmode_mapping =
     [(''SslPrefer'', ''prefer''), (''SslDisable'', ''disable''), (''SslAllow'', ''allow''),
      (''SslRequire'', ''require''), (''SslVerifyCa'', ''verify-ca''),
      (''SslVerifyFull'', ''verify-full''),
      (''0'', ''prefer''), (''1'', ''disable''), (''2'', ''allow''),
      (''3'', ''require''), (''4'', ''verify-ca''), (''5'', ''verify-full'')]"

definition valid_sslmodes :: "string list" where
  "valid_sslmodes =
     [''prefer'', ''disable'', ''allow'', ''require'', ''verify-ca'', ''verify-full'']"

definition normalize_sslmode :: "string option \<Rightarrow> string" where
  "normalize_sslmode v =
     (case v of
        None \<Rightarrow> ''prefer''
      | Some raw \<Rightarrow>
          (let s = strip raw
           in case map_of sslmode_mapping s of
                Some r \<Rightarrow> r
              | None \<Rightarrow> if lower s \<in> set valid_sslmodes then lower s else ''prefer''))"

section \<open>Output file name of a project document (ExportWorker.run, lines 367-371)\<close>

definition project_filename :: "string \<Rightarrow> string" where
  "project_filename pn =
     (if endswith (lower pn) ''.qgz'' then take (length pn - 4) pn @ ''.qgs''
      else if \<not> endswith (lower pn) ''.qgs'' then pn @ ''.qgs''
      else pn)"

section \<open>db_utils._extract_qgs_xml\<close>

text \<open>
  The payload read from the project table is a \<^verbatim>\<open>str\<close>, a \<^verbatim>\<open>bytes\<close> object or a value
  of another type (a \<^verbatim>\<open>dict\<close> for a JSON column). The archive reader, the inflater and
  the UTF-8 decoder are library calls; each one either raises (\<open>Inl\<close>, with the message)
  or returns (\<open>Inr\<close>).
\<close>

type_synonym bytes = "8 word list"

datatype payload = PyStr string | PyBytes bytes | PyOther

record decoders =
  zip_namelist :: "bytes \<Rightarrow> string + string list"
  zip_read :: "bytes \<Rightarrow> string \<Rightarrow> string + bytes"
  zlib_decompress :: "bytes \<Rightarrow> string + bytes"
  utf8_decode :: "bytes \<Rightarrow> string + string"

text \<open>
  What the function does besides returning: the log lines it writes and the decoders it
  starts, in order.
\<close>

datatype extract_event =
    LogHeader string nat bytes
  | TryZip
  | LogZipError string string
  | TryZlib
  | TryUtf8
  | TryZlibLast
  | LogCannotExtract string bytes

definition is_qgs :: "string \<Rightarrow> bool" where
  "is_qgs txt = (let s = strip txt in startswith s ''<?xml'' \<or> startswith s ''<qgis'')"

definition pk_signature :: bytes where
  "pk_signature = [0x50, 0x4B, 0x03, 0x04]"

text \<open>
  \<^verbatim>\<open>target = qgs[0] if qgs else (zf.namelist()[0] if zf.namelist() else None)\<close>
\<close>

definition zip_target :: "string list \<Rightarrow> string option" where
  "zip_target names =
     (case filter (\<lambda>f. endswith (lower f) ''.qgs'') names of
        q # _ \<Rightarrow> Some q
      | [] \<Rightarrow> (case names of n # _ \<Rightarrow> Some n | [] \<Rightarrow> None))"

text \<open>
  The body of the \<^verbatim>\<open>try\<close> of the archive branch: \<open>Inl\<close> is an exception raised inside
  it, \<open>Inr None\<close> means that it fell through without returning.
\<close>

definition zip_body :: "decoders \<Rightarrow> bytes \<Rightarrow> string + string option" where
  "zip_body d raw =
     (case zip_namelist d raw of
        Inl e \<Rightarrow> Inl e
      | Inr names \<Rightarrow>
          (case zip_target names of
             None \<Rightarrow> Inr None
           | Some target \<Rightarrow>
               if target = [] then Inr None
               else (case zip_read d raw target of
                       Inl e \<Rightarrow> Inl e
                     | Inr data \<Rightarrow>
                         (case utf8_decode d data of
                            Inl e \<Rightarrow> Inl e
                          | Inr txt \<Rightarrow> if is_qgs txt then Inr (Some txt) else Inr None))))"

definition try_zip :: "decoders \<Rightarrow> string \<Rightarrow> bytes \<Rightarrow> string option \<times> extract_event list" where
  "try_zip d name raw =
     (case zip_body d raw of
        Inl e \<Rightarrow> (None, [TryZip, LogZipError name e])
      | Inr r \<Rightarrow> (r, [TryZip]))"

definition zlib_body :: "decoders \<Rightarrow> bytes \<Rightarrow> string option" where
  "zlib_body d raw =
     (case zlib_decompress d raw of
        Inl e \<Rightarrow> None
      | Inr data \<Rightarrow>
          (case utf8_decode d data of
             Inl e \<Rightarrow> None
           | Inr txt \<Rightarrow> if is_qgs txt then Some txt else None))"

definition utf8_body :: "decoders \<Rightarrow> bytes \<Rightarrow> string option" where
  "utf8_body d raw =
     (case utf8_decode d raw of
        Inl e \<Rightarrow> None
      | Inr txt \<Rightarrow> if is_qgs txt then Some txt else None)"

definition extract_bytes :: "decoders \<Rightarrow> string \<Rightarrow> bytes \<Rightarrow> string option \<times> extract_event list" where
  "extract_bytes d name raw =
     (let ev0 = [LogHeader name (length raw) (take 4 raw)];
          (r1, ev1) = (if take 4 raw = pk_signature then try_zip d name raw else (None, []))
      in case r1 of
           Some txt \<Rightarrow> (Some txt, ev0 @ ev1)
         | None \<Rightarrow>
            (let (r2, ev2) = (if take 1 raw = [0x78] then (zlib_body d raw, [TryZlib])
                              else (None, []))
             in case r2 of
                  Some txt \<Rightarrow> (Some txt, ev0 @ ev1 @ ev2)
                | None \<Rightarrow>
                   (case utf8_body d raw of
                      Some txt \<Rightarrow> (Some txt, ev0 @ ev1 @ ev2 @ [TryUtf8])
                    | None \<Rightarrow>
                       (case zlib_body d raw of
                          Some txt \<Rightarrow> (Some txt, ev0 @ ev1 @ ev2 @ [TryUtf8, TryZlibLast])
                        | None \<Rightarrow>
                            (None, ev0 @ ev1 @ ev2 @
                               [TryUtf8, TryZlibLast, LogCannotExtract name (take 16 raw)])))))"

definition extract_qgs_xml :: "decoders \<Rightarrow> string \<Rightarrow> payload \<Rightarrow> string option \<times> extract_event list" where
  "extract_qgs_xml d name raw =
     (case raw of
        PyStr s \<Rightarrow> (if is_qgs s then Some s else None, [])
      | PyOther \<Rightarrow> (None, [])
      | PyBytes b \<Rightarrow> extract_bytes d name b)"

section \<open>Regular expressions of the rewriter\<close>

text \<open>
  The seven patterns that \<^verbatim>\<open>rewrite_qgis_project_datasources\<close> hands to \<^verbatim>\<open>re.search\<close> are
  sequences of literal characters and of greedy repetitions of one character class, some
  of them capturing. \<open>rmatch\<close> matches such a sequence at the start of a string the way a
  backtracking matcher does (longest repetition first) and returns the captured groups;
  \<open>research\<close> is \<^verbatim>\<open>re.search\<close>: the leftmost position at which the pattern matches.
\<close>

datatype cclass = NotChar char | DotOrSpace | NonSpace

fun in_class :: "cclass \<Rightarrow> char \<Rightarrow> bool" where
  "in_class (NotChar q) c = (c \<noteq> q)"
| "in_class DotOrSpace c = (c = CHR ''.'' \<or> is_space c)"
| "in_class NonSpace c = (\<not> is_space c)"

datatype ritem = Lit char | Star cclass | CapStar cclass | CapPlus cclass

fun rmatch :: "ritem list \<Rightarrow> string \<Rightarrow> string list option" where
  "rmatch [] s = Some []"
| "rmatch (Lit c # r) [] = None"
| "rmatch (Lit c # r) (x # xs) = (if x = c then rmatch r xs else None)"
| "rmatch (Star cl # r) [] = rmatch r []"
| "rmatch (Star cl # r) (x # xs) =
     (if in_class cl x
      then (case rmatch (Star cl # r) xs of Some gs \<Rightarrow> Some gs | None \<Rightarrow> rmatch r (x # xs))
      else rmatch r (x # xs))"
| "rmatch (CapStar cl # r) [] = map_option (\<lambda>gs. [] # gs) (rmatch r [])"
| "rmatch (CapStar cl # r) (x # xs) =
     (if in_class cl x
      then (case rmatch (CapStar cl # r) xs of
              Some (g # gs) \<Rightarrow> Some ((x # g) # gs)
            | _ \<Rightarrow> map_option (\<lambda>gs. [] # gs) (rmatch r (x # xs)))
      else map_option (\<lambda>gs. [] # gs) (rmatch r (x # xs)))"
| "rmatch (CapPlus cl # r) [] = None"
| "rmatch (CapPlus cl # r) (x # xs) =
     (if in_class cl x
      then (case rmatch (CapStar cl # r) xs of
              Some (g # gs) \<Rightarrow> Some ((x # g) # gs)
            | _ \<Rightarrow> None)
      else None)"

fun research :: "ritem list \<Rightarrow> string \<Rightarrow> string list option" where
  "research p [] = rmatch p []"
| "research p (x # xs) =
     (case rmatch p (x # xs) of Some gs \<Rightarrow> Some gs | None \<Rightarrow> research p xs)"

definition squote :: char where
  "squote = CHR 0x27"

definition dquote :: char where
  "dquote = CHR 0x22"

definition lits :: "string \<Rightarrow> ritem list" where
  "lits s = map Lit s"

text \<open>
  \<^verbatim>\<open>schema='([^']*)'\<close>, \<^verbatim>\<open>schema="([^"]*)"\<close> and \<^verbatim>\<open>schema=(\S+)\<close>, in the order of the
  source.
\<close>

definition schema_patterns :: "ritem list list" where
  "schema_patterns =
     [lits ''schema='' @ [Lit squote, CapStar (NotChar squote), Lit squote],
      lits ''schema='' @ [Lit dquote, CapStar (NotChar dquote), Lit dquote],
      lits ''schema='' @ [CapPlus NonSpace]]"

text \<open>
  \<^verbatim>\<open>table="([^"]*)"[.\s]*"([^"]*)"\<close>, \<^verbatim>\<open>table='([^']*)'\.'([^']*)'\<close>,
  \<^verbatim>\<open>table="([^"]*)"\<close> and \<^verbatim>\<open>table='([^']*)'\<close>, in the order of the source.
\<close>

definition table_patterns :: "ritem list list" where
  "table_patterns =
     [lits ''table='' @ [Lit dquote, CapStar (NotChar dquote), Lit dquote, Star DotOrSpace,
                         Lit dquote, CapStar (NotChar dquote), Lit dquote],
      lits ''table='' @ [Lit squote, CapStar (NotChar squote), Lit squote, Lit CHR ''.'',
                         Lit squote, CapStar (NotChar squote), Lit squote],
      lits ''table='' @ [Lit dquote, CapStar (NotChar dquote), Lit dquote],
      lits ''table='' @ [Lit squote, CapStar (NotChar squote), Lit squote]]"

text \<open>The \<^verbatim>\<open>for pat in [...]\<close> loops: the groups of the first pattern that matches.\<close>

fun first_match :: "ritem list list \<Rightarrow> string \<Rightarrow> string list option" where
  "first_match [] s = None"
| "first_match (p # ps) s =
     (case research p s of Some gs \<Rightarrow> Some gs | None \<Rightarrow> first_match ps s)"

text \<open>Python truthiness of an optional string: \<^verbatim>\<open>None\<close> and the empty string are false.\<close>

definition truthy :: "string option \<Rightarrow> bool" where
  "truthy v = (case v of None \<Rightarrow> False | Some s \<Rightarrow> s \<noteq> [])"

text \<open>
  Lines 143-167: the schema and table names read off a data-source string. A pattern with
  two groups gives the table as its second group and, when no schema was found before,
  the schema as its first.
\<close>

definition parse_names :: "string \<Rightarrow> string option \<times> string option" where
  "parse_names ds_text =
     (let schema_name = (case first_match schema_patterns ds_text of
                           Some (g # _) \<Rightarrow> Some g
                         | _ \<Rightarrow> None)
      in case first_match table_patterns ds_text of
           Some [g1, g2] \<Rightarrow> (if \<not> truthy schema_name then Some g1 else schema_name, Some g2)
         | Some (g1 # _) \<Rightarrow> (schema_name, Some g1)
         | _ \<Rightarrow> (schema_name, None))"

section \<open>Element trees\<close>

text \<open>
  An \<^verbatim>\<open>xml.etree.ElementTree.Element\<close>: tag, attributes in document order, the text
  before the first child, the children, and the text after the closing tag. The parser
  and the serialiser belong to the library and are parameters of the rewriter:
  \<open>fromstring\<close> raises \<^verbatim>\<open>ParseError\<close> (\<open>Inl\<close>, with the message) or returns the root.
\<close>

datatype element =
  Element (tag: string) (attrib: "(string \<times> string) list") (elem_text: "string option")
          (children: "element list") (tail: "string option")

record xml_lib =
  fromstring :: "string \<Rightarrow> string + element"
  tostring :: "element \<Rightarrow> string"

text \<open>\<^verbatim>\<open>elem.iter()\<close>: the element and all its descendants, in document order.\<close>

fun iter :: "element \<Rightarrow> element list" where
  "iter (Element tg al tx ch ta) = Element tg al tx ch ta # concat (map iter ch)"

definition iter_tag :: "string \<Rightarrow> element \<Rightarrow> element list" where
  "iter_tag name e = filter (\<lambda>x. tag x = name) (iter e)"

text \<open>\<^verbatim>\<open>elem.find(name)\<close>: the first child with that tag.\<close>

definition find_child :: "string \<Rightarrow> element \<Rightarrow> element option" where
  "find_child name e = find (\<lambda>c. tag c = name) (children e)"

definition set_text :: "string \<Rightarrow> element \<Rightarrow> element" where
  "set_text v e = Element (tag e) (attrib e) (Some v) (children e) (tail e)"

text \<open>Assigning to \<^verbatim>\<open>.text\<close> of the element that \<^verbatim>\<open>find(name)\<close> returned.\<close>

fun set_child_text :: "string \<Rightarrow> string \<Rightarrow> element list \<Rightarrow> element list" where
  "set_child_text name v [] = []"
| "set_child_text name v (c # cs) =
     (if tag c = name then set_text v c # cs else c # set_child_text name v cs)"

section \<open>export_engine.rewrite_qgis_project_datasources\<close>

text \<open>
  The three assignment dictionaries are association lists: \<open>schema_gpkg_map\<close> from schema
  to container path, \<open>table_gpkg_map\<close> from (schema, table) to container path,
  \<open>layer_prefix_map\<close> from schema to layer-name prefix.
\<close>

type_synonym schema_map = "(string \<times> string) list"
type_synonym table_map = "((string \<times> string) \<times> string) list"

text \<open>
  Lines 175-184: the container path and the layer name for a parsed (schema, table). The
  prefix map may be \<^verbatim>\<open>None\<close>; an empty dictionary is as false as \<^verbatim>\<open>None\<close>.
\<close>

definition resolve_gpkg ::
  "schema_map \<Rightarrow> table_map \<Rightarrow> schema_map option \<Rightarrow> string \<Rightarrow> string \<Rightarrow> string option \<times> string"
where
  "resolve_gpkg schema_gpkg_map table_gpkg_map layer_prefix_map schema_name table_name =
     (case map_of table_gpkg_map (schema_name, table_name) of
        Some p \<Rightarrow> (Some p, table_name)
      | None \<Rightarrow>
          (case map_of schema_gpkg_map schema_name of
             Some p \<Rightarrow>
               (Some p,
                case layer_prefix_map of
                  None \<Rightarrow> table_name
                | Some pm \<Rightarrow>
                    (case map_of pm schema_name of
                       Some prefix \<Rightarrow> prefix @ table_name
                     | None \<Rightarrow> table_name))
           | None \<Rightarrow> (None, table_name)))"

text \<open>
  What the body of the loop over the \<open>maplayer\<close> elements decides for one of them:
  \<open>NotDatabase\<close> is either \<^verbatim>\<open>continue\<close> that counts nothing, \<open>CannotParse\<close> and
  \<open>NoContainer\<close> are the two skips, \<open>Rewritten\<close> carries the new data-source string.
\<close>

datatype layer_outcome =
    NotDatabase
  | CannotParse string
  | NoContainer string string
  | Rewritten string string string

definition inspect_layer ::
  "schema_map \<Rightarrow> table_map \<Rightarrow> schema_map option \<Rightarrow> element \<Rightarrow> layer_outcome"
where
  "inspect_layer schema_gpkg_map table_gpkg_map layer_prefix_map layer_elem =
     (case find_child ''provider'' layer_elem of
        None \<Rightarrow> NotDatabase
      | Some prov \<Rightarrow>
         (case find_child ''datasource'' layer_elem of
            None \<Rightarrow> NotDatabase
          | Some ds \<Rightarrow>
             (case elem_text ds of
                None \<Rightarrow> NotDatabase
              | Some ds_text \<Rightarrow>
                 if \<not> (elem_text prov = Some ''postgres'' \<or> contains ''dbname='' ds_text
                        \<or> contains ''service='' ds_text)
                 then NotDatabase
                 else
                   (case parse_names ds_text of
                      (schema_name, table_name) \<Rightarrow>
                        if \<not> truthy schema_name \<or> \<not> truthy table_name
                        then CannotParse (take 120 ds_text)
                        else
                          (case resolve_gpkg schema_gpkg_map table_gpkg_map layer_prefix_map
                                  (the schema_name) (the table_name) of
                             (gpkg_path, gpkg_layer_name) \<Rightarrow>
                               if \<not> truthy gpkg_path
                               then NoContainer (the schema_name) (the table_name)
                               else Rewritten (the schema_name) (the table_name)
                                      (the gpkg_path @ ''|layername='' @ gpkg_layer_name))))))"

text \<open>Lines 196-197: the two assignments, made only for a \<open>Rewritten\<close> layer.\<close>

definition rewrite_layer ::
  "schema_map \<Rightarrow> table_map \<Rightarrow> schema_map option \<Rightarrow> element \<Rightarrow> element"
where
  "rewrite_layer schema_gpkg_map table_gpkg_map layer_prefix_map layer_elem =
     (case inspect_layer schema_gpkg_map table_gpkg_map layer_prefix_map layer_elem of
        Rewritten s t new_ds \<Rightarrow>
          Element (tag layer_elem) (attrib layer_elem) (elem_text layer_elem)
            (set_child_text ''provider'' ''ogr''
               (set_child_text ''datasource'' new_ds (children layer_elem)))
            (tail layer_elem)
      | _ \<Rightarrow> layer_elem)"

text \<open>
  The loop \<^verbatim>\<open>for layer_elem in root.iter("maplayer")\<close> mutates the tree in place. Its body
  reads and writes only the text of two children of the layer it visits, and an element
  is the child of one element only, so no visit changes what another visit reads: the
  loop is the body applied at every \<open>maplayer\<close> element of the tree.
\<close>

fun update_layers :: "(element \<Rightarrow> element) \<Rightarrow> element \<Rightarrow> element" where
  "update_layers f (Element tg al tx ch ta) =
     (let e = Element tg al tx (map (update_layers f) ch) ta
      in if tg = ''maplayer'' then f e else e)"

text \<open>Lines 204-210: every child with the tag \<open>projectstorage\<close> is removed from its parent.\<close>

fun remove_projectstorage :: "element \<Rightarrow> element" where
  "remove_projectstorage (Element tg al tx ch ta) =
     Element tg al tx
       (map remove_projectstorage (filter (\<lambda>c. tag c \<noteq> ''projectstorage'') ch)) ta"

text \<open>Lines 212-213: \<^verbatim>\<open>root.attrib.setdefault("projectname", "")\<close> on a \<open>qgis\<close> root.\<close>

definition set_projectname :: "element \<Rightarrow> element" where
  "set_projectname root =
     (if tag root = ''qgis'' \<and> map_of (attrib root) ''projectname'' = None
      then Element (tag root) (attrib root @ [(''projectname'', [])]) (elem_text root)
             (children root) (tail root)
      else root)"

text \<open>Lines 215-218: a \<open>homePath\<close> whose \<open>path\<close> names the database gets an empty path.\<close>

definition blank_home :: "element \<Rightarrow> element" where
  "blank_home hp =
     (let pv = (case map_of (attrib hp) ''path'' of Some v \<Rightarrow> v | None \<Rightarrow> [])
      in if contains ''postgresql'' (lower pv) \<or> contains ''dbname='' (lower pv)
         then Element (tag hp) (AList.update ''path'' [] (attrib hp)) (elem_text hp)
                (children hp) (tail hp)
         else hp)"

fun blank_home_paths :: "element \<Rightarrow> element" where
  "blank_home_paths (Element tg al tx ch ta) =
     (let e = Element tg al tx (map blank_home_paths ch) ta
      in if tg = ''homePath'' then blank_home e else e)"

text \<open>
  The log lines of the rewriter (it has no other effect): the parse error, one line per
  skipped or rewritten layer, and the closing count of rewritten and skipped layers.
\<close>

datatype rewrite_log =
    LogParseError string
  | LogSkipParse string
  | LogSkipNoGpkg string string
  | LogRewrite string string string
  | LogSummary nat nat

fun layer_log :: "layer_outcome \<Rightarrow> rewrite_log list" where
  "layer_log NotDatabase = []"
| "layer_log (CannotParse d) = [LogSkipParse d]"
| "layer_log (NoContainer s t) = [LogSkipNoGpkg s t]"
| "layer_log (Rewritten s t new_ds) = [LogRewrite s t new_ds]"

fun is_rewritten :: "layer_outcome \<Rightarrow> bool" where
  "is_rewritten (Rewritten s t new_ds) = True"
| "is_rewritten _ = False"

fun is_skip :: "layer_outcome \<Rightarrow> bool" where
  "is_skip (CannotParse d) = True"
| "is_skip (NoContainer s t) = True"
| "is_skip _ = False"

definition rewrite_tree ::
  "schema_map \<Rightarrow> table_map \<Rightarrow> schema_map option \<Rightarrow> element \<Rightarrow> element"
where
  "rewrite_tree schema_gpkg_map table_gpkg_map layer_prefix_map root =
     blank_home_paths
       (set_projectname
          (remove_projectstorage
             (update_layers (rewrite_layer schema_gpkg_map table_gpkg_map layer_prefix_map)
                root)))"

text \<open>
  The function: the rewritten text and the log. \<^verbatim>\<open>schema_gpkg_map or {}\<close> and
  \<^verbatim>\<open>table_gpkg_map or {}\<close> turn a missing dictionary into an empty one.
\<close>

definition rewrite_qgis_project_datasources ::
  "xml_lib \<Rightarrow> string \<Rightarrow> schema_map option \<Rightarrow> table_map option \<Rightarrow> schema_map option
     \<Rightarrow> string \<times> rewrite_log list"
where
  "rewrite_qgis_project_datasources lib xml_content schema_gpkg_map table_gpkg_map
       layer_prefix_map =
     (case fromstring lib xml_content of
        Inl e \<Rightarrow> (xml_content, [LogParseError e])
      | Inr root \<Rightarrow>
          (let sm = (case schema_gpkg_map of None \<Rightarrow> [] | Some m \<Rightarrow> m);
               tm = (case table_gpkg_map of None \<Rightarrow> [] | Some m \<Rightarrow> m);
               outcomes = map (inspect_layer sm tm layer_prefix_map) (iter_tag ''maplayer'' root)
           in (tostring lib (rewrite_tree sm tm layer_prefix_map root),
               concat (map layer_log outcomes)
                 @ [LogSummary (length (filter is_rewritten outcomes))
                      (length (filter is_skip outcomes))])))"

text \<open>
  For the statements about the output document: the elements of a tree that the removal
  of \<open>projectstorage\<close> children leaves in it, in document order, and what the three passes
  that run below the root make of one of them.
\<close>

fun kept :: "element \<Rightarrow> element list" where
  "kept (Element tg al tx ch ta) =
     Element tg al tx ch ta
       # concat (map kept (filter (\<lambda>c. tag c \<noteq> ''projectstorage'') ch))"

definition layer_image ::
  "schema_map \<Rightarrow> table_map \<Rightarrow> schema_map option \<Rightarrow> element \<Rightarrow> element"
where
  "layer_image sm tm pm e =
     blank_home_paths (remove_projectstorage (update_layers (rewrite_layer sm tm pm) e))"

text \<open>The text of the two fields of a layer, which is all that the loop body reads.\<close>

definition layer_fields :: "element \<Rightarrow> string option option \<times> string option option" where
  "layer_fields e = (map_option elem_text (find_child ''provider'' e),
                     map_option elem_text (find_child ''datasource'' e))"

text \<open>An element none of whose descendants is a layer, a storage pointer or a home path.\<close>

definition quiet_tag :: "element \<Rightarrow> bool" where
  "quiet_tag x = (tag x \<noteq> ''maplayer'' \<and> tag x \<noteq> ''projectstorage'' \<and> tag x \<noteq> ''homePath'')"

definition plain :: "element \<Rightarrow> bool" where
  "plain e = list_all quiet_tag (concat (map iter (children e)))"

section \<open>Concrete inputs\<close>

text \<open>
  An archive payload and decoders for it: the archive holds \<open>readme.txt\<close> and \<open>Map.QGS\<close>,
  the inflater rejects everything, and the UTF-8 decoder accepts seven-bit bytes.
\<close>

definition demo_payload :: bytes where
  "demo_payload = [0x50, 0x4B, 0x03, 0x04, 0x00]"

definition demo_decoders :: decoders where
  "demo_decoders =
     \<lparr> zip_namelist = (\<lambda>_. Inr [''readme.txt'', ''Map.QGS'']),
       zip_read = (\<lambda>_ n. if n = ''Map.QGS'' then Inr [0x3C, 0x71, 0x67, 0x69, 0x73, 0x2F, 0x3E]
                        else Inl ''no such member''),
       zlib_decompress = (\<lambda>_. Inl ''incorrect header check''),
       utf8_decode = (\<lambda>b. if list_all (\<lambda>x. x < 0x80) b then Inr (map (\<lambda>x. char_of (unat x)) b)
                          else Inl ''invalid start byte'') \<rparr>"

text \<open>
  A toy markup library: the parser knows one document text and rejects every other
  string; the serialiser writes tags, attributes and text without escaping.
\<close>

fun demo_tostring :: "element \<Rightarrow> string" where
  "demo_tostring (Element tg al tx ch ta) =
     ''<'' @ tg @ concat (map (\<lambda>(k, v). '' '' @ k @ ''='' @ [dquote] @ v @ [dquote]) al) @ ''>''
       @ (case tx of None \<Rightarrow> [] | Some s \<Rightarrow> s)
       @ concat (map demo_tostring ch)
       @ ''</'' @ tg @ ''>''
       @ (case ta of None \<Rightarrow> [] | Some s \<Rightarrow> s)"

text \<open>The data-source string \<^verbatim>\<open>dbname='x' schema='s' table='t'\<close>.\<close>

definition ds_xst :: string where
  "ds_xst = ''dbname='x' schema='s' table='t'' @ [squote]"

definition field :: "string \<Rightarrow> string \<Rightarrow> element" where
  "field name v = Element name [] (Some v) [] None"

definition layer_db :: element where
  "layer_db = Element ''maplayer'' [] None
                [Element ''id'' [] (Some ''roads_1'') [] None,
                 field ''datasource'' ds_xst, field ''provider'' ''postgres''] None"

definition layer_file :: element where
  "layer_file = Element ''maplayer'' [] None
                  [field ''datasource'' ''/data/rivers.shp'', field ''provider'' ''ogr''] None"

definition layer_other :: element where
  "layer_other = Element ''maplayer'' [] None
                   [field ''datasource'' (''dbname='x' schema='u' table='v'' @ [squote]),
                    field ''provider'' ''postgres''] None"

definition layer_marked :: element where
  "layer_marked = Element ''maplayer'' [] None
                    [field ''datasource'' ''/data/rivers.shp'', field ''provider'' ''ogr'',
                     Element ''projectstorage'' [] None [] None] None"

definition demo_doc :: element where
  "demo_doc = Element ''qgis'' [(''version'', ''3.34'')] None
                [Element ''projectlayers'' [] None [layer_db, layer_file, layer_other] None] None"

definition marked_doc :: element where
  "marked_doc = Element ''qgis'' [] None [layer_marked] None"

definition demo_tables :: table_map where
  "demo_tables = [((''s'', ''t''), ''/out/s/t.gpkg'')]"

definition demo_xml_lib :: xml_lib where
  "demo_xml_lib =
     \<lparr> fromstring = (\<lambda>s. if s = demo_tostring demo_doc then Inr demo_doc
                          else Inl ''syntax error: line 1, column 0''),
       tostring = demo_tostring \<rparr>"

section \<open>Facts about the string helpers\<close>

lemma lower_append: "lower (xs @ ys) = lower xs @ lower ys"
  by (simp add: lower_def)

lemma length_lower: "length (lower s) = length s"
  by (simp add: lower_def)

lemma endswith_append_same: "endswith (xs @ p) p"
  by (simp add: endswith_def)

lemma lower_qgs: "lower ''.qgs'' = ''.qgs''"
  by (simp add: lower_def lower_char_def)

lemma space_lower_char: "is_space c \<Longrightarrow> lower_char c = c"
  by (auto simp: is_space_def lower_char_def Let_def)

lemma strip_id:
  assumes "s \<noteq> []" and "\<not> is_space (hd s)" and "\<not> is_space (last s)"
  shows "strip s = s"
proof -
  from assms(1,2) have a: "dropWhile is_space s = s"
    by (cases s) simp_all
  from assms(1,3) have "dropWhile is_space (rev s) = rev s"
    by (cases "rev s") (simp_all add: hd_rev [symmetric])
  with a show ?thesis by (simp add: strip_def)
qed


lemma valid_no_key: "lower s \<in> set valid_sslmodes \<Longrightarrow> map_of sslmode_mapping s = None"
proof -
  assume a: "lower s \<in> set valid_sslmodes"
  have "\<forall>k \<in> fst ` set sslmode_mapping. lower k \<notin> set valid_sslmodes"
    by (simp add: sslmode_mapping_def valid_sslmodes_def lower_def lower_char_def)
  with a have "s \<notin> fst ` set sslmode_mapping" by blast
  then show ?thesis by (simp add: map_of_eq_None_iff)
qed

lemma valid_no_space:
  assumes "lower s \<in> set valid_sslmodes"
  shows "s \<noteq> [] \<and> \<not> is_space (hd s) \<and> \<not> is_space (last s)"
proof -
  have v: "\<forall>m \<in> set valid_sslmodes. m \<noteq> [] \<and> \<not> is_space (hd m) \<and> \<not> is_space (last m)"
    by (simp add: valid_sslmodes_def is_space_def)
  from assms v have ne: "lower s \<noteq> []" and h: "\<not> is_space (hd (lower s))"
    and l: "\<not> is_space (last (lower s))" by blast+
  from ne have sne: "s \<noteq> []" by (simp add: lower_def)
  have "hd (lower s) = lower_char (hd s)" using sne by (simp add: lower_def hd_map)
  with h have 1: "\<not> is_space (hd s)" using space_lower_char by fastforce
  have "last (lower s) = lower_char (last s)" using sne by (simp add: lower_def last_map)
  with l have 2: "\<not> is_space (last s)" using space_lower_char by fastforce
  from sne 1 2 show ?thesis by simp
qed

lemma mapping_values_valid: "map_of sslmode_mapping s = Some r \<Longrightarrow> r \<in> set valid_sslmodes"
  by (auto simp: sslmode_mapping_def valid_sslmodes_def split: if_splits)

text \<open>
  Claim C9. \<open>normalize_sslmode\<close> is total and its result is always one of the six valid
  sslmode strings: \<^verbatim>\<open>None\<close> gives \<open>prefer\<close>; the numeric codes \<open>0\<close> to \<open>5\<close> and the Qt
  enum names give the string the table assigns them; a string that is valid in some letter
  case gives its lowercase form; every other value gives \<open>prefer\<close>.
\<close>

theorem normalize_sslmode_valid:
  "normalize_sslmode v \<in> set valid_sslmodes
   \<and> normalize_sslmode None = ''prefer''
   \<and> map (\<lambda>k. normalize_sslmode (Some k)) [''0'', ''1'', ''2'', ''3'', ''4'', ''5'']
       = [''prefer'', ''disable'', ''allow'', ''require'', ''verify-ca'', ''verify-full'']
   \<and> map (\<lambda>k. normalize_sslmode (Some k))
         [''SslPrefer'', ''SslDisable'', ''SslAllow'', ''SslRequire'', ''SslVerifyCa'',
          ''SslVerifyFull'']
       = [''prefer'', ''disable'', ''allow'', ''require'', ''verify-ca'', ''verify-full'']
   \<and> (lower s \<in> set valid_sslmodes \<longrightarrow> normalize_sslmode (Some s) = lower s)
   \<and> (map_of sslmode_mapping (strip u) = None \<and> lower (strip u) \<notin> set valid_sslmodes
        \<longrightarrow> normalize_sslmode (Some u) = ''prefer'')"
proof (intro conjI impI)
  show "normalize_sslmode v \<in> set valid_sslmodes"
  proof (cases v)
    case None
    then show ?thesis by (simp add: normalize_sslmode_def valid_sslmodes_def)
  next
    case (Some raw)
    show ?thesis
    proof (cases "map_of sslmode_mapping (strip raw)")
      case None
      with Some show ?thesis
        by (simp add: normalize_sslmode_def Let_def) (simp add: valid_sslmodes_def)
    next
      case (Some r)
      with \<open>v = Some raw\<close> mapping_values_valid [OF Some] show ?thesis
        by (simp add: normalize_sslmode_def Let_def)
    qed
  qed
next
  show "normalize_sslmode None = ''prefer''" by (simp add: normalize_sslmode_def)
next
  show "map (\<lambda>k. normalize_sslmode (Some k)) [''0'', ''1'', ''2'', ''3'', ''4'', ''5'']
       = [''prefer'', ''disable'', ''allow'', ''require'', ''verify-ca'', ''verify-full'']"
    by (simp add: normalize_sslmode_def strip_def is_space_def sslmode_mapping_def)
next
  show "map (\<lambda>k. normalize_sslmode (Some k))
         [''SslPrefer'', ''SslDisable'', ''SslAllow'', ''SslRequire'', ''SslVerifyCa'',
          ''SslVerifyFull'']
       = [''prefer'', ''disable'', ''allow'', ''require'', ''verify-ca'', ''verify-full'']"
    by (simp add: normalize_sslmode_def strip_def is_space_def sslmode_mapping_def)
next
  assume a: "lower s \<in> set valid_sslmodes"
  from valid_no_space [OF a] have "strip s = s" by (simp add: strip_id)
  with a valid_no_key [OF a] show "normalize_sslmode (Some s) = lower s"
    by (simp add: normalize_sslmode_def)
next
  assume "map_of sslmode_mapping (strip u) = None \<and> lower (strip u) \<notin> set valid_sslmodes"
  then show "normalize_sslmode (Some u) = ''prefer''"
    by (simp add: normalize_sslmode_def)
qed

theorem normalize_sslmode_valid_witness:
  "normalize_sslmode (Some '' 7 '') \<in> set valid_sslmodes
   \<and> lower ''Verify-CA'' \<in> set valid_sslmodes
   \<and> normalize_sslmode (Some ''Verify-CA'') = ''verify-ca''
   \<and> map_of sslmode_mapping (strip '' bogus '') = None
   \<and> lower (strip '' bogus '') \<notin> set valid_sslmodes
   \<and> normalize_sslmode (Some '' bogus '') = ''prefer''"
proof -
  have a: "lower ''Verify-CA'' \<in> set valid_sslmodes"
    by code_simp
  have a': "lower ''Verify-CA'' = ''verify-ca''"
    by code_simp
  have b: "map_of sslmode_mapping (strip '' bogus '') = None
           \<and> lower (strip '' bogus '') \<notin> set valid_sslmodes"
    by code_simp
  from normalize_sslmode_valid [of "Some '' 7 ''" "''Verify-CA''" "'' bogus ''"] a b
  show ?thesis by (simp add: a')
qed

lemma lower_take: "lower (take n s) = take n (lower s)"
  by (simp add: lower_def take_map)

text \<open>
  Claim C10. The file name under which a project document is written always ends in
  \<open>.qgs\<close> (compared in lowercase): a name ending in \<open>.qgz\<close> has its last four characters
  replaced by \<open>.qgs\<close>, a name already ending in \<open>.qgs\<close> is kept, and any other name gets
  \<open>.qgs\<close> appended.
\<close>

theorem project_filename_qgs:
  "endswith (lower (project_filename pn)) ''.qgs''
   \<and> (endswith (lower pn) ''.qgz'' \<longrightarrow> project_filename pn = take (length pn - 4) pn @ ''.qgs'')
   \<and> (endswith (lower pn) ''.qgs'' \<longrightarrow> project_filename pn = pn)
   \<and> (\<not> endswith (lower pn) ''.qgz'' \<and> \<not> endswith (lower pn) ''.qgs''
        \<longrightarrow> project_filename pn = pn @ ''.qgs'')"
proof (intro conjI impI)
  show "endswith (lower (project_filename pn)) ''.qgs''"
    using endswith_append_same [of _ "''.qgs''"]
    by (simp add: project_filename_def lower_append lower_qgs)
next
  assume "endswith (lower pn) ''.qgz''"
  then show "project_filename pn = take (length pn - 4) pn @ ''.qgs''"
    by (simp add: project_filename_def)
next
  assume a: "endswith (lower pn) ''.qgs''"
  then have "\<not> endswith (lower pn) ''.qgz''"
    by (auto simp: endswith_def)
  with a show "project_filename pn = pn" by (simp add: project_filename_def)
next
  assume "\<not> endswith (lower pn) ''.qgz'' \<and> \<not> endswith (lower pn) ''.qgs''"
  then show "project_filename pn = pn @ ''.qgs''" by (simp add: project_filename_def)
qed

theorem project_filename_qgs_witness:
  "endswith (lower ''Town.QGZ'') ''.qgz'' \<and> project_filename ''Town.QGZ'' = ''Town.qgs''
   \<and> endswith (lower ''a.QgS'') ''.qgs'' \<and> project_filename ''a.QgS'' = ''a.QgS''
   \<and> \<not> endswith (lower ''plan'') ''.qgz'' \<and> \<not> endswith (lower ''plan'') ''.qgs''
   \<and> project_filename ''plan'' = ''plan.qgs''"
proof -
  have a: "endswith (lower ''Town.QGZ'') ''.qgz''"
    by code_simp
  have b: "endswith (lower ''a.QgS'') ''.qgs''"
    by code_simp
  have c: "\<not> endswith (lower ''plan'') ''.qgz'' \<and> \<not> endswith (lower ''plan'') ''.qgs''"
    by code_simp
  from project_filename_qgs [of "''Town.QGZ''"] project_filename_qgs [of "''a.QgS''"]
    project_filename_qgs [of "''plan''"] a b c
  show ?thesis by simp
qed

section \<open>The extractor tries the archive first\<close>

lemma zip_target_find:
  "zip_target names =
     (case find (\<lambda>f. endswith (lower f) ''.qgs'') names of
        Some q \<Rightarrow> Some q
      | None \<Rightarrow> (case names of [] \<Rightarrow> None | n # _ \<Rightarrow> Some n))"
proof (cases "filter (\<lambda>f. endswith (lower f) ''.qgs'') names")
  case Nil
  then have "find (\<lambda>f. endswith (lower f) ''.qgs'') names = None"
    by (simp add: find_None_iff filter_empty_conv)
  with Nil show ?thesis by (simp add: zip_target_def split: list.splits)
next
  case (Cons q qs)
  then have "find (\<lambda>f. endswith (lower f) ''.qgs'') names = Some q"
    by (induction names) (auto split: if_splits)
  with Cons show ?thesis by (simp add: zip_target_def)
qed

text \<open>
  Claim C8. For a payload whose first four bytes are the local-file signature of an
  archive, the extractor starts the archive decoder before any other decoder, whatever the
  other decoders would return on the raw bytes; the member it reads is the first one whose
  lowercased name ends in \<open>.qgs\<close>, else the first member; and when that member decodes to
  project markup, that text is the result.
\<close>

theorem extract_archive_first:
  assumes "take 4 raw = pk_signature"
  shows "(\<exists>rest. snd (extract_qgs_xml d name (PyBytes raw))
                    = LogHeader name (length raw) (take 4 raw) # TryZip # rest)
       \<and> (\<forall>names. zip_target names =
            (case find (\<lambda>f. endswith (lower f) ''.qgs'') names of
               Some q \<Rightarrow> Some q
             | None \<Rightarrow> (case names of [] \<Rightarrow> None | n # _ \<Rightarrow> Some n)))
       \<and> (\<forall>names target data doc.
             zip_namelist d raw = Inr names \<and> zip_target names = Some target \<and> target \<noteq> []
             \<and> zip_read d raw target = Inr data \<and> utf8_decode d data = Inr doc \<and> is_qgs doc
             \<longrightarrow> extract_qgs_xml d name (PyBytes raw)
                   = (Some doc, [LogHeader name (length raw) (take 4 raw), TryZip]))"
proof (intro conjI allI impI)
  show "\<exists>rest. snd (extract_qgs_xml d name (PyBytes raw))
                 = LogHeader name (length raw) (take 4 raw) # TryZip # rest"
    using assms
    by (auto simp: extract_qgs_xml_def extract_bytes_def try_zip_def Let_def
        split: sum.splits option.splits prod.splits)
next
  fix names
  show "zip_target names =
            (case find (\<lambda>f. endswith (lower f) ''.qgs'') names of
               Some q \<Rightarrow> Some q
             | None \<Rightarrow> (case names of [] \<Rightarrow> None | n # _ \<Rightarrow> Some n))"
    by (rule zip_target_find)
next
  fix names target data doc
  assume "zip_namelist d raw = Inr names \<and> zip_target names = Some target \<and> target \<noteq> []
             \<and> zip_read d raw target = Inr data \<and> utf8_decode d data = Inr doc \<and> is_qgs doc"
  then have "zip_body d raw = Inr (Some doc)"
    by (simp add: zip_body_def)
  with assms show "extract_qgs_xml d name (PyBytes raw)
                   = (Some doc, [LogHeader name (length raw) (take 4 raw), TryZip])"
    by (simp add: extract_qgs_xml_def extract_bytes_def try_zip_def)
qed

theorem extract_archive_first_witness:
  "take 4 demo_payload = pk_signature
   \<and> extract_qgs_xml demo_decoders ''p'' (PyBytes demo_payload)
       = (Some ''<qgis/>'', [LogHeader ''p'' 5 pk_signature, TryZip])"
proof -
  have h: "take 4 demo_payload = pk_signature"
    by (simp add: demo_payload_def pk_signature_def)
  have n: "zip_namelist demo_decoders demo_payload = Inr [''readme.txt'', ''Map.QGS'']"
    by (simp add: demo_decoders_def)
  have t: "zip_target [''readme.txt'', ''Map.QGS''] = Some ''Map.QGS''"
    by code_simp
  have r: "zip_read demo_decoders demo_payload ''Map.QGS''
           = Inr [0x3C, 0x71, 0x67, 0x69, 0x73, 0x2F, 0x3E]"
    by (simp add: demo_decoders_def)
  have u: "utf8_decode demo_decoders [0x3C, 0x71, 0x67, 0x69, 0x73, 0x2F, 0x3E] = Inr ''<qgis/>''"
    by code_simp
  have q: "is_qgs ''<qgis/>''"
    by code_simp
  have l: "length demo_payload = 5"
    by (simp add: demo_payload_def)
  from extract_archive_first [OF h, of demo_decoders "''p''"] n t r u q
  have "extract_qgs_xml demo_decoders ''p'' (PyBytes demo_payload)
        = (Some ''<qgis/>'', [LogHeader ''p'' (length demo_payload) (take 4 demo_payload), TryZip])"
    by blast
  with h l show ?thesis by simp
qed

section \<open>Facts about element trees\<close>

lemma set_text_sel [simp]:
  "tag (set_text v e) = tag e" "attrib (set_text v e) = attrib e"
  "elem_text (set_text v e) = Some v" "children (set_text v e) = children e"
  "tail (set_text v e) = tail e"
  by (simp_all add: set_text_def)

lemma map_tag_set_child_text [simp]: "map tag (set_child_text n v cs) = map tag cs"
  by (induction cs) simp_all

lemma find_set_child_text_same:
  "find (\<lambda>c. tag c = n) (set_child_text n v cs) = map_option (set_text v) (find (\<lambda>c. tag c = n) cs)"
  by (induction cs) simp_all

lemma find_set_child_text_other:
  "m \<noteq> n \<Longrightarrow> find (\<lambda>c. tag c = m) (set_child_text n v cs) = find (\<lambda>c. tag c = m) cs"
  by (induction cs) auto

lemma find_map_tag:
  "(\<And>c. tag (g c) = tag c) \<Longrightarrow>
     find (\<lambda>c. tag c = n) (map g cs) = map_option g (find (\<lambda>c. tag c = n) cs)"
  by (induction cs) simp_all

lemma find_filter_other:
  "m \<noteq> n \<Longrightarrow> find (\<lambda>c. tag c = m) (filter (\<lambda>c. tag c \<noteq> n) cs) = find (\<lambda>c. tag c = m) cs"
  by (induction cs) auto

lemma rewrite_layer_sel [simp]:
  "tag (rewrite_layer sm tm pm e) = tag e" "attrib (rewrite_layer sm tm pm e) = attrib e"
  "elem_text (rewrite_layer sm tm pm e) = elem_text e" "tail (rewrite_layer sm tm pm e) = tail e"
  by (simp_all add: rewrite_layer_def split: layer_outcome.splits)

lemma update_layers_sel [simp]:
  "tag (update_layers (rewrite_layer sm tm pm) e) = tag e"
  "attrib (update_layers (rewrite_layer sm tm pm) e) = attrib e"
  "elem_text (update_layers (rewrite_layer sm tm pm) e) = elem_text e"
  "tail (update_layers (rewrite_layer sm tm pm) e) = tail e"
  by (cases e; simp add: Let_def)+

lemma remove_projectstorage_sel [simp]:
  "tag (remove_projectstorage e) = tag e" "attrib (remove_projectstorage e) = attrib e"
  "elem_text (remove_projectstorage e) = elem_text e" "tail (remove_projectstorage e) = tail e"
  by (cases e; simp)+

lemma blank_home_sel [simp]:
  "tag (blank_home e) = tag e" "elem_text (blank_home e) = elem_text e"
  "children (blank_home e) = children e" "tail (blank_home e) = tail e"
  by (simp_all add: blank_home_def Let_def)

lemma blank_home_paths_sel [simp]:
  "tag (blank_home_paths e) = tag e" "elem_text (blank_home_paths e) = elem_text e"
  "tail (blank_home_paths e) = tail e"
  by (cases e; simp add: Let_def)+

lemma children_blank_home_paths [simp]:
  "children (blank_home_paths e) = map blank_home_paths (children e)"
  by (cases e) (simp add: Let_def)

lemma children_remove_projectstorage [simp]:
  "children (remove_projectstorage e)
     = map remove_projectstorage (filter (\<lambda>c. tag c \<noteq> ''projectstorage'') (children e))"
  by (cases e) simp

lemma inspect_layer_fields:
  assumes "layer_fields e = layer_fields e'"
  shows "inspect_layer sm tm pm e = inspect_layer sm tm pm e'"
proof -
  from assms have p: "map_option elem_text (find_child ''provider'' e)
      = map_option elem_text (find_child ''provider'' e')"
    and d: "map_option elem_text (find_child ''datasource'' e)
      = map_option elem_text (find_child ''datasource'' e')"
    by (simp_all add: layer_fields_def)
  show ?thesis
  proof (cases "find_child ''provider'' e")
    case None
    with p have "find_child ''provider'' e' = None" by simp
    with None show ?thesis by (simp add: inspect_layer_def)
  next
    case (Some prov)
    with p obtain prov' where p': "find_child ''provider'' e' = Some prov'"
      and pt: "elem_text prov' = elem_text prov" by (cases "find_child ''provider'' e'") auto
    show ?thesis
    proof (cases "find_child ''datasource'' e")
      case None
      with d have "find_child ''datasource'' e' = None" by simp
      with None Some p' show ?thesis by (simp add: inspect_layer_def)
    next
      case ds: (Some dsrc)
      with d obtain ds' where d': "find_child ''datasource'' e' = Some ds'"
        and dt: "elem_text ds' = elem_text dsrc" by (cases "find_child ''datasource'' e'") auto
      from Some ds p' d' show ?thesis
        by (simp add: inspect_layer_def pt dt cong: option.case_cong)
    qed
  qed
qed

lemma children_rewrite_layer_unchanged:
  "\<not> is_rewritten (inspect_layer sm tm pm e) \<Longrightarrow> rewrite_layer sm tm pm e = e"
  by (cases "inspect_layer sm tm pm e") (simp_all add: rewrite_layer_def)


lemma iter_unfold: "iter e = e # concat (map iter (children e))"
  by (cases e) simp

lemma kept_unfold:
  "kept e = e # concat (map kept (filter (\<lambda>c. tag c \<noteq> ''projectstorage'') (children e)))"
  by (cases e) simp

lemma update_layers_unfold:
  "update_layers f e =
     (let e' = Element (tag e) (attrib e) (elem_text e) (map (update_layers f) (children e)) (tail e)
      in if tag e = ''maplayer'' then f e' else e')"
  by (cases e) simp

lemma layer_fields_map_update:
  "layer_fields (Element tg al tx (map (update_layers (rewrite_layer sm tm pm)) ch) ta)
     = layer_fields (Element tg al tx ch ta)"
proof -
  have "\<And>n. map_option elem_text
            (find (\<lambda>c. tag c = n) (map (update_layers (rewrite_layer sm tm pm)) ch))
          = map_option elem_text (find (\<lambda>c. tag c = n) ch)"
    by (simp add: find_map_tag option.map_comp comp_def)
  then show ?thesis by (simp add: layer_fields_def find_child_def)
qed

lemma layer_fields_remove_projectstorage:
  "layer_fields (remove_projectstorage e) = layer_fields e"
  by (simp add: layer_fields_def find_child_def find_map_tag find_filter_other
      option.map_comp comp_def)

lemma layer_fields_blank_home_paths:
  "layer_fields (blank_home_paths e) = layer_fields e"
  by (simp add: layer_fields_def find_child_def find_map_tag option.map_comp comp_def)

lemma update_layers_maplayer:
  assumes "tag e = ''maplayer''"
  shows "update_layers (rewrite_layer sm tm pm) e =
     (case inspect_layer sm tm pm e of
        Rewritten s t new_ds \<Rightarrow>
          Element (tag e) (attrib e) (elem_text e)
            (set_child_text ''provider'' ''ogr''
               (set_child_text ''datasource'' new_ds
                  (map (update_layers (rewrite_layer sm tm pm)) (children e))))
            (tail e)
      | _ \<Rightarrow> Element (tag e) (attrib e) (elem_text e)
               (map (update_layers (rewrite_layer sm tm pm)) (children e)) (tail e))"
proof -
  obtain tg al tx ch ta where e: "e = Element tg al tx ch ta" by (cases e)
  let ?e' = "Element tg al tx (map (update_layers (rewrite_layer sm tm pm)) ch) ta"
  have "inspect_layer sm tm pm ?e' = inspect_layer sm tm pm e"
    unfolding e by (rule inspect_layer_fields) (rule layer_fields_map_update)
  with assms e show ?thesis
    by (simp add: rewrite_layer_def split: layer_outcome.splits)
qed

lemma layer_fields_rewritten:
  assumes "tag e = ''maplayer''" and "inspect_layer sm tm pm e = Rewritten s t new_ds"
  shows "layer_fields (update_layers (rewrite_layer sm tm pm) e) = (Some (Some ''ogr''), Some (Some new_ds))"
proof -
  from assms(2) obtain prov ds where p: "find_child ''provider'' e = Some prov"
    and d: "find_child ''datasource'' e = Some ds"
    by (auto simp: inspect_layer_def split: option.splits)
  let ?ch = "map (update_layers (rewrite_layer sm tm pm)) (children e)"
  from p have p': "find (\<lambda>c. tag c = ''provider'') ?ch \<noteq> None"
    by (simp add: find_child_def find_map_tag)
  from d have d': "find (\<lambda>c. tag c = ''datasource'') ?ch \<noteq> None"
    by (simp add: find_child_def find_map_tag)
  from p' d' show ?thesis
    by (auto simp: update_layers_maplayer [OF assms(1)] assms(2) layer_fields_def find_child_def
        find_set_child_text_same find_set_child_text_other)
qed

lemma layer_fields_not_rewritten:
  assumes "\<not> is_rewritten (inspect_layer sm tm pm e)"
  shows "layer_fields (update_layers (rewrite_layer sm tm pm) e) = layer_fields e"
proof -
  have "update_layers (rewrite_layer sm tm pm) e
      = Element (tag e) (attrib e) (elem_text e)
          (map (update_layers (rewrite_layer sm tm pm)) (children e)) (tail e)"
  proof (cases "tag e = ''maplayer''")
    case True
    from assms show ?thesis
      by (cases "inspect_layer sm tm pm e") (simp_all add: update_layers_maplayer [OF True])
  next
    case False
    then show ?thesis by (simp add: update_layers_unfold [of _ e])
  qed
  then show ?thesis by (simp add: layer_fields_map_update)
qed

lemma layer_fields_layer_image:
  "layer_fields (layer_image sm tm pm e) = layer_fields (update_layers (rewrite_layer sm tm pm) e)"
  by (simp add: layer_image_def layer_fields_blank_home_paths layer_fields_remove_projectstorage)


section \<open>The layers of the output document\<close>

lemma concat_map_cong:
  "(\<And>x. x \<in> set xs \<Longrightarrow> f x = g x) \<Longrightarrow> concat (map f xs) = concat (map g xs)"
  by (induction xs) simp_all

lemma iter_blank_home_paths: "iter (blank_home_paths e) = map blank_home_paths (iter e)"
proof (induction e)
  case (Element tg al tx ch ta)
  have "concat (map (\<lambda>x. iter (blank_home_paths x)) ch)
      = concat (map (\<lambda>x. map blank_home_paths (iter x)) ch)"
    by (rule concat_map_cong) (simp add: Element.IH)
  then have c: "concat (map iter (map blank_home_paths ch))
      = map blank_home_paths (concat (map iter ch))"
    by (simp add: map_concat comp_def)
  show ?case
  proof (cases "tg = ''homePath''")
    case False
    with c show ?thesis by (simp add: Let_def)
  next
    case True
    let ?e = "Element tg al tx (map blank_home_paths ch) ta"
    have "iter (blank_home ?e) = blank_home ?e # concat (map iter (children (blank_home ?e)))"
      by (rule iter_unfold)
    with c True show ?thesis by (simp add: Let_def)
  qed
qed

lemma iter_remove_projectstorage: "iter (remove_projectstorage e) = map remove_projectstorage (kept e)"
proof (induction e)
  case (Element tg al tx ch ta)
  let ?ch = "filter (\<lambda>c. tag c \<noteq> ''projectstorage'') ch"
  have "concat (map (\<lambda>x. iter (remove_projectstorage x)) ?ch)
      = concat (map (\<lambda>x. map remove_projectstorage (kept x)) ?ch)"
    by (rule concat_map_cong) (simp add: Element.IH)
  then show ?case by (simp add: map_concat comp_def)
qed

lemma kept_layers_set_text:
  "tag c \<noteq> ''maplayer'' \<Longrightarrow>
     filter (\<lambda>x. tag x = ''maplayer'') (kept (set_text v c))
       = filter (\<lambda>x. tag x = ''maplayer'') (kept c)"
  by (cases c) (simp add: set_text_def)

lemma kept_layers_set_child_text:
  "n \<noteq> ''maplayer'' \<Longrightarrow>
     filter (\<lambda>x. tag x = ''maplayer'')
        (concat (map kept (filter (\<lambda>c. tag c \<noteq> ''projectstorage'') (set_child_text n v cs))))
   = filter (\<lambda>x. tag x = ''maplayer'')
        (concat (map kept (filter (\<lambda>c. tag c \<noteq> ''projectstorage'') cs)))"
proof (induction cs)
  case Nil
  then show ?case by simp
next
  case (Cons c cs)
  then show ?case
    by (cases "tag c = n") (simp_all add: kept_layers_set_text)
qed

lemma kept_layers_update:
  "filter (\<lambda>x. tag x = ''maplayer'') (kept (update_layers (rewrite_layer sm tm pm) e))
     = map (update_layers (rewrite_layer sm tm pm)) (filter (\<lambda>x. tag x = ''maplayer'') (kept e))"
proof (induction e)
  case (Element tg al tx ch ta)
  let ?u = "update_layers (rewrite_layer sm tm pm)"
  let ?ml = "\<lambda>x. tag x = ''maplayer''"
  let ?nps = "\<lambda>c. tag c \<noteq> ''projectstorage''"
  have flt: "filter ?nps (map ?u ch) = map ?u (filter ?nps ch)"
    by (simp add: filter_map comp_def)
  have "concat (map (\<lambda>x. filter ?ml (kept (?u x))) (filter ?nps ch))
      = concat (map (\<lambda>x. map ?u (filter ?ml (kept x))) (filter ?nps ch))"
    by (rule concat_map_cong) (simp add: Element.IH)
  then have sub: "filter ?ml (concat (map kept (filter ?nps (map ?u ch))))
           = map ?u (filter ?ml (concat (map kept (filter ?nps ch))))"
    unfolding flt by (simp add: filter_concat map_concat comp_def)
  show ?case
  proof (cases "tg = ''maplayer''")
    case False
    with sub show ?thesis by (simp add: Let_def)
  next
    case True
    let ?e = "Element tg al tx ch ta"
    have t: "tag ?e = ''maplayer''" using True by simp
    have "filter ?ml (concat (map kept (filter ?nps (children (?u ?e)))))
        = filter ?ml (concat (map kept (filter ?nps (map ?u ch))))"
      by (cases "inspect_layer sm tm pm ?e")
        (simp_all add: update_layers_maplayer [OF t] kept_layers_set_child_text
          del: update_layers.simps)
    with sub have r: "filter ?ml (concat (map kept (filter ?nps (children (?u ?e)))))
        = map ?u (filter ?ml (concat (map kept (filter ?nps ch))))" by simp
    have "kept (?u ?e) = ?u ?e # concat (map kept (filter ?nps (children (?u ?e))))"
      by (rule kept_unfold)
    then have "filter ?ml (kept (?u ?e))
        = ?u ?e # filter ?ml (concat (map kept (filter ?nps (children (?u ?e)))))"
      using True by (simp del: update_layers.simps)
    with r True show ?thesis by (simp del: update_layers.simps)
  qed
qed

lemma iter_tag_set_projectname:
  "iter_tag ''maplayer'' (set_projectname e) = iter_tag ''maplayer'' e"
  by (cases e) (simp add: set_projectname_def iter_tag_def)

lemma layers_of_rewrite_tree:
  "iter_tag ''maplayer'' (rewrite_tree sm tm pm root)
     = map (layer_image sm tm pm) (filter (\<lambda>x. tag x = ''maplayer'') (kept root))"
proof -
  let ?u = "update_layers (rewrite_layer sm tm pm)"
  let ?ml = "\<lambda>x. tag x = ''maplayer''"
  have a: "\<And>e. iter_tag ''maplayer'' (blank_home_paths e) = map blank_home_paths (iter_tag ''maplayer'' e)"
    by (simp add: iter_tag_def iter_blank_home_paths filter_map comp_def)
  have b: "\<And>e. iter_tag ''maplayer'' (remove_projectstorage e)
             = map remove_projectstorage (filter ?ml (kept e))"
    by (simp add: iter_tag_def iter_remove_projectstorage filter_map comp_def)
  have "iter_tag ''maplayer'' (rewrite_tree sm tm pm root)
      = map blank_home_paths (iter_tag ''maplayer'' (set_projectname (remove_projectstorage (?u root))))"
    by (simp add: rewrite_tree_def a)
  also have "\<dots> = map blank_home_paths (map remove_projectstorage (filter ?ml (kept (?u root))))"
    by (simp only: iter_tag_set_projectname b)
  also have "\<dots> = map (layer_image sm tm pm) (filter ?ml (kept root))"
    by (simp add: kept_layers_update layer_image_def comp_def)
  finally show ?thesis .
qed

section \<open>Elements that no pass changes\<close>

lemma quiet_passes:
  assumes "list_all quiet_tag (iter e)"
  shows "update_layers f e = e \<and> remove_projectstorage e = e \<and> blank_home_paths e = e"
  using assms
proof (induction e)
  case (Element tg al tx ch ta)
  from Element.prems have q: "quiet_tag (Element tg al tx ch ta)"
    and sub: "\<And>c. c \<in> set ch \<Longrightarrow> list_all quiet_tag (iter c)"
    by (simp_all add: list_all_iff)
  from sub Element.IH have ch: "\<And>c. c \<in> set ch \<Longrightarrow>
      update_layers f c = c \<and> remove_projectstorage c = c \<and> blank_home_paths c = c"
    by blast
  have "\<And>c. c \<in> set ch \<Longrightarrow> quiet_tag c"
  proof -
    fix c assume "c \<in> set ch"
    from sub [OF this] show "quiet_tag c" by (cases c) simp
  qed
  then have nps: "filter (\<lambda>c. tag c \<noteq> ''projectstorage'') ch = ch"
    by (simp add: filter_id_conv quiet_tag_def)
  from ch have "map (update_layers f) ch = ch" "map remove_projectstorage ch = ch"
    "map blank_home_paths ch = ch"
    by (simp_all add: map_idI)
  with nps q show ?case by (simp add: Let_def quiet_tag_def)
qed

lemma plain_layer_image:
  assumes "tag e = ''maplayer''" and "plain e" and "\<not> is_rewritten (inspect_layer sm tm pm e)"
  shows "layer_image sm tm pm e = e"
proof -
  let ?u = "update_layers (rewrite_layer sm tm pm)"
  from assms(2) have all: "\<And>c. c \<in> set (children e) \<Longrightarrow> list_all quiet_tag (iter c)"
    by (auto simp: plain_def list_all_iff)
  then have m: "map ?u (children e) = children e"
    "map remove_projectstorage (children e) = children e"
    "map blank_home_paths (children e) = children e"
    by (simp_all add: map_idI quiet_passes)
  have "\<And>c. c \<in> set (children e) \<Longrightarrow> quiet_tag c"
  proof -
    fix c assume "c \<in> set (children e)"
    from all [OF this] show "quiet_tag c" by (cases c) simp
  qed
  then have nps: "filter (\<lambda>c. tag c \<noteq> ''projectstorage'') (children e) = children e"
    by (simp add: filter_id_conv quiet_tag_def)
  from assms(3) have u: "?u e = e"
    by (cases "inspect_layer sm tm pm e") (simp_all add: update_layers_maplayer [OF assms(1)] m)
  obtain tg al tx ch ta where e: "e = Element tg al tx ch ta" by (cases e)
  from m nps assms(1) show ?thesis
    unfolding layer_image_def u by (simp add: e Let_def)
qed

end
